theory Spec2Isabelle
  imports Complex_Main "HOL-Library.Sublist"
begin

section \<open>Text\<close>

text \<open>
  A Python \<open>str\<close> is a sequence of Unicode code points, and is modelled as the list of
  them, each a natural number. \<open>str ''abc''\<close> is the text \<open>abc\<close>. The backslash is the code
  point 92, the double quote 34 and the line feed 10.
\<close>

type_synonym ustr = "nat list"

definition str :: "string \<Rightarrow> ustr" where
  "str s = map of_char s"

definition BSL :: nat where "BSL = 92"
definition DQ :: nat where "DQ = 34"
definition NL :: nat where "NL = 10"

text \<open>
  \<open>s.replace(old, new)\<close>: the occurrences of \<open>old\<close> are found from the left and do not
  overlap; the text put in is not scanned again. With an empty \<open>old\<close> Python puts \<open>new\<close>
  before every character and at the end.
\<close>

function str_replace :: "ustr \<Rightarrow> ustr \<Rightarrow> ustr \<Rightarrow> ustr" where
  "str_replace old new s =
     (if old = [] then new @ concat (map (\<lambda>c. c # new) s)
      else if s = [] then []
      else if prefix old s then new @ str_replace old new (drop (length old) s)
      else hd s # str_replace old new (tl s))"
  by pat_completeness auto
termination
  by (relation "measure (\<lambda>(old, new, s). length s)") auto

declare str_replace.simps [simp del]

section \<open>Exceptions\<close>

text \<open>
  The exceptions of the model are the classes the modelled code and the library calls it
  makes raise; all of them derive from \<open>Exception\<close>, so \<open>except Exception\<close> and a bare
  \<open>except\<close> catch every one. A computation that can raise has the type \<open>exc + 'a\<close>, \<open>Inl\<close>
  the exception raised, and \<open>and_then\<close> runs the next statement when none was.
\<close>

datatype exc =
    ValueError | TypeError | AttributeError | KeyError | OverflowError | ZeroDivisionError
  | JSONDecodeError | UnicodeDecodeError | OSError | RecursionError

definition and_then :: "exc + 'a \<Rightarrow> ('a \<Rightarrow> exc + 'b) \<Rightarrow> exc + 'b" where
  "and_then m f = (case m of Inl e \<Rightarrow> Inl e | Inr v \<Rightarrow> f v)"

text \<open>
  \<open>try: body  except Exception as e: print(...); return dflt\<close>. Printing the message is taken
  to succeed.
\<close>

definition try_except :: "exc + 'a \<Rightarrow> 'a \<Rightarrow> exc + 'a" where
  "try_except body dflt = (case body of Inl e \<Rightarrow> Inr dflt | Inr v \<Rightarrow> Inr v)"

section \<open>Floats\<close>

text \<open>
  A Python \<open>float\<close> is an IEEE 754 binary64 number: a finite value (the rational it
  denotes), the negative zero, an infinity or a NaN. \<open>Fin 0\<close> is the positive zero.
  Every operation rounds its exact result to the nearest double, ties to even, and
  overflows to an infinity.
\<close>

datatype pyfloat = Fin rat | NegZero | PInf | NInf | NaN

definition pow2 :: "int \<Rightarrow> rat" where
  "pow2 e = (if 0 \<le> e then 2 ^ nat e else 1 / 2 ^ nat (- e))"

function nat_log2 :: "nat \<Rightarrow> nat" where
  "nat_log2 n = (if n < 2 then 0 else Suc (nat_log2 (n div 2)))"
  by pat_completeness auto
termination
  by (relation "measure id") auto

declare nat_log2.simps [simp del]

text \<open>The exponent of a positive rational: the \<open>e\<close> with \<open>2\<^sup>e \<le> a < 2\<^sup>e\<^sup>+\<^sup>1\<close>.\<close>

definition ilog2 :: "rat \<Rightarrow> int" where
  "ilog2 a = (if 1 \<le> a then int (nat_log2 (nat \<lfloor>a\<rfloor>))
              else - int (Suc (nat_log2 (nat \<lceil>1 / a\<rceil> - 1))))"

definition round_half_even :: "rat \<Rightarrow> int" where
  "round_half_even q =
     (let f = \<lfloor>q\<rfloor>; r = q - of_int f
      in if r < 1 / 2 then f else if 1 / 2 < r then f + 1 else if even f then f else f + 1)"

text \<open>
  Rounding to binary64: 53 bits of precision, the least exponent \<open>-1022\<close> (below it the
  numbers are subnormal, spaced \<open>2\<^sup>-\<^sup>1\<^sup>0\<^sup>7\<^sup>4\<close> apart), and an infinity from \<open>2\<^sup>1\<^sup>0\<^sup>2\<^sup>4\<close> on.
\<close>

definition round_double :: "rat \<Rightarrow> pyfloat" where
  "round_double q =
     (if q = 0 then Fin 0
      else
        (let a = \<bar>q\<bar>;
             e = max (ilog2 a) (- 1022);
             ulp = pow2 (e - 52);
             n = round_half_even (a / ulp);
             r = of_int n * ulp
         in if pow2 1024 \<le> r then (if q < 0 then NInf else PInf)
            else if n = 0 then (if q < 0 then NegZero else Fin 0)
            else Fin (if q < 0 then - r else r)))"

fun val :: "pyfloat \<Rightarrow> rat" where
  "val (Fin q) = q"
| "val x = 0"

fun is_finite :: "pyfloat \<Rightarrow> bool" where
  "is_finite (Fin q) = True"
| "is_finite NegZero = True"
| "is_finite x = False"

text \<open>The sign bit; the sign of a NaN plays no part in the model.\<close>

fun negative :: "pyfloat \<Rightarrow> bool" where
  "negative (Fin q) = (q < 0)"
| "negative NegZero = True"
| "negative NInf = True"
| "negative x = False"

definition is_zero :: "pyfloat \<Rightarrow> bool" where
  "is_zero x \<longleftrightarrow> x = Fin 0 \<or> x = NegZero"

definition signed_zero :: "bool \<Rightarrow> pyfloat" where
  "signed_zero neg = (if neg then NegZero else Fin 0)"

definition signed_inf :: "bool \<Rightarrow> pyfloat" where
  "signed_inf neg = (if neg then NInf else PInf)"

fun fneg :: "pyfloat \<Rightarrow> pyfloat" where
  "fneg (Fin q) = (if q = 0 then NegZero else Fin (- q))"
| "fneg NegZero = Fin 0"
| "fneg PInf = NInf"
| "fneg NInf = PInf"
| "fneg NaN = NaN"

text \<open>\<open>x + y\<close>. An exact sum of zero is \<open>+0\<close>, but \<open>-0 + -0\<close> is \<open>-0\<close>.\<close>

definition fadd :: "pyfloat \<Rightarrow> pyfloat \<Rightarrow> pyfloat" where
  "fadd x y =
     (if x = NaN \<or> y = NaN then NaN
      else if x = PInf then (if y = NInf then NaN else PInf)
      else if x = NInf then (if y = PInf then NaN else NInf)
      else if y = PInf then PInf
      else if y = NInf then NInf
      else if val x + val y = 0 then signed_zero (x = NegZero \<and> y = NegZero)
      else round_double (val x + val y))"

text \<open>\<open>x - y\<close>, which IEEE 754 defines as \<open>x + (-y)\<close>.\<close>

definition fsub :: "pyfloat \<Rightarrow> pyfloat \<Rightarrow> pyfloat" where
  "fsub x y = fadd x (fneg y)"

text \<open>\<open>x * y\<close>.\<close>

definition fmul :: "pyfloat \<Rightarrow> pyfloat \<Rightarrow> pyfloat" where
  "fmul x y =
     (if x = NaN \<or> y = NaN then NaN
      else if \<not> is_finite x \<or> \<not> is_finite y then
        (if is_zero x \<or> is_zero y then NaN else signed_inf (negative x \<noteq> negative y))
      else if val x * val y = 0 then signed_zero (negative x \<noteq> negative y)
      else round_double (val x * val y))"

text \<open>
  The quotient of IEEE 754 for a divisor that is not zero, and Python's \<open>x / y\<close>, which
  raises \<open>ZeroDivisionError\<close> when it is.
\<close>

definition fdiv :: "pyfloat \<Rightarrow> pyfloat \<Rightarrow> pyfloat" where
  "fdiv x y =
     (if x = NaN \<or> y = NaN \<or> is_zero y then NaN
      else if \<not> is_finite x then
        (if is_finite y then signed_inf (negative x \<noteq> negative y) else NaN)
      else if \<not> is_finite y then signed_zero (negative x \<noteq> negative y)
      else if val x = 0 then signed_zero (negative x \<noteq> negative y)
      else round_double (val x / val y))"

definition py_truediv :: "pyfloat \<Rightarrow> pyfloat \<Rightarrow> exc + pyfloat" where
  "py_truediv x y = (if is_zero y then Inl ZeroDivisionError else Inr (fdiv x y))"

text \<open>\<open>x < y\<close>, \<open>x > y\<close> and \<open>x >= y\<close>: false as soon as one side is a NaN.\<close>

fun flt :: "pyfloat \<Rightarrow> pyfloat \<Rightarrow> bool" where
  "flt NaN y = False"
| "flt x NaN = False"
| "flt PInf y = False"
| "flt x NInf = False"
| "flt NInf y = True"
| "flt x PInf = True"
| "flt x y = (val x < val y)"

definition fgt :: "pyfloat \<Rightarrow> pyfloat \<Rightarrow> bool" where
  "fgt x y = flt y x"

definition fge :: "pyfloat \<Rightarrow> pyfloat \<Rightarrow> bool" where
  "fge x y \<longleftrightarrow> x \<noteq> NaN \<and> y \<noteq> NaN \<and> \<not> flt x y"

text \<open>
  A float literal of the source, \<open>0.75\<close> or \<open>0.7\<close>, is the double nearest to the decimal;
  an \<open>int\<close> that meets a float in an operation is converted to the double nearest to it.
\<close>

definition lit_float :: "rat \<Rightarrow> pyfloat" where
  "lit_float q = round_double q"

definition float_of_int :: "int \<Rightarrow> pyfloat" where
  "float_of_int i = round_double (of_int i)"

text \<open>
  \<open>int(x)\<close> truncates towards zero, and raises \<open>OverflowError\<close> on an infinity and
  \<open>ValueError\<close> on a NaN.
\<close>

definition trunc :: "rat \<Rightarrow> int" where
  "trunc q = (if 0 \<le> q then \<lfloor>q\<rfloor> else \<lceil>q\<rceil>)"

fun py_int :: "pyfloat \<Rightarrow> exc + int" where
  "py_int (Fin q) = Inr (trunc q)"
| "py_int NegZero = Inr 0"
| "py_int PInf = Inl OverflowError"
| "py_int NInf = Inl OverflowError"
| "py_int NaN = Inl ValueError"

text \<open>
  \<open>a / b\<close> for two \<open>int\<close>s: the double nearest to the quotient; \<open>ZeroDivisionError\<close> for
  \<open>b = 0\<close>, \<open>OverflowError\<close> when the quotient is too large for a double.
\<close>

definition int_truediv :: "int \<Rightarrow> int \<Rightarrow> exc + pyfloat" where
  "int_truediv a b =
     (if b = 0 then Inl ZeroDivisionError
      else (let r = round_double (of_int a / of_int b)
            in if is_finite r then Inr r else Inl OverflowError))"

section \<open>Formatting\<close>

definition digit_char :: "nat \<Rightarrow> nat" where
  "digit_char d = 48 + d"

function show_nat :: "nat \<Rightarrow> ustr" where
  "show_nat n = (if n < 10 then [digit_char n] else show_nat (n div 10) @ [digit_char (n mod 10)])"
  by pat_completeness auto
termination
  by (relation "measure id") auto

declare show_nat.simps [simp del]

text \<open>\<open>str(n)\<close> for an integer, as an f-string field \<open>{n}\<close> prints it.\<close>

definition show_int :: "int \<Rightarrow> ustr" where
  "show_int i = (if i < 0 then str ''-'' @ show_nat (nat (- i)) else show_nat (nat i))"

text \<open>
  The f-string field \<open>{x:.df}\<close>: the exact value of the double rounded to \<open>d\<close> decimals,
  ties to even; the sign is printed when the sign bit is set, also before a zero; the
  fraction is padded with zeros to \<open>d\<close> digits.
\<close>

definition format_fixed :: "nat \<Rightarrow> bool \<Rightarrow> rat \<Rightarrow> ustr" where
  "format_fixed d neg a =
     (let m = nat (round_half_even (a * 10 ^ d));
          ip = show_nat (m div 10 ^ d);
          fp = show_nat (m mod 10 ^ d)
      in (if neg then str ''-'' else []) @ ip @
         (if d = 0 then [] else str ''.'' @ replicate (d - length fp) 48 @ fp))"

fun format_f :: "nat \<Rightarrow> pyfloat \<Rightarrow> ustr" where
  "format_f d (Fin q) = format_fixed d (q < 0) \<bar>q\<bar>"
| "format_f d NegZero = format_fixed d True 0"
| "format_f d PInf = str ''inf''"
| "format_f d NInf = str ''-inf''"
| "format_f d NaN = str ''nan''"

section \<open>The insight engine\<close>

text \<open>
  \<open>roi_by_channel\<close> is a Python dictionary, kept here as the list of its items in
  insertion order. A value is \<open>None\<close>, the string \<open>'N/A'\<close> or a float.
\<close>

datatype roi_value = NoRoi | NotAvailable | Roi pyfloat

type_synonym roi_map = "(ustr \<times> roi_value) list"

record insight =
  type :: ustr
  title :: ustr
  description :: ustr
  action :: ustr

text \<open>The characters outside ASCII of the titles and descriptions.\<close>

definition warning_sign :: ustr where "warning_sign = [0x26A0, 0xFE0F]"
definition red_circle :: ustr where "red_circle = [0x1F534]"
definition rocket :: ustr where "rocket = [0x1F680]"
definition chart_increasing :: ustr where "chart_increasing = [0x1F4C8]"
definition magnifier :: ustr where "magnifier = [0x1F50D]"
definition briefcase :: ustr where "briefcase = [0x1F4BC]"
definition money_bag :: ustr where "money_bag = [0x1F4B0]"
definition bar_chart :: ustr where "bar_chart = [0x1F4CA]"
definition superscript_two :: ustr where "superscript_two = [0xB2]"

subsection \<open>The rule on the fit score\<close>

definition r2_insight :: "pyfloat option \<Rightarrow> exc + insight list" where
  "r2_insight r2_score =
     (case r2_score of
        None \<Rightarrow> Inr []
      | Some r \<Rightarrow>
          if fge r (lit_float (3 / 4)) then Inr []
          else if fge r (lit_float (1 / 2)) then
            and_then (py_int (fmul (fsub (lit_float (3 / 4)) r) (float_of_int 100)))
              (\<lambda>improvement_potential.
                Inr [\<lparr>type = str ''warning'',
                  title = warning_sign @ str '' Model needs improvement for better accuracy'',
                  description = str ''With an R'' @ superscript_two @ str '' of '' @ format_f 3 r @
                    str '', the model explains a significant portion of the variation but can be improved by approximately '' @
                    show_int improvement_potential @ str '' points.'',
                  action = str ''Enrich your data (external variables, seasonality, events) to improve model accuracy.''\<rparr>])
          else
            and_then (py_int (fmul (fsub (lit_float (1 / 2)) r) (float_of_int 100)))
              (\<lambda>improvement_needed.
                Inr [\<lparr>type = str ''danger'',
                  title = red_circle @ str '' Model requires revision'',
                  description = str ''With an R'' @ superscript_two @ str '' of '' @ format_f 3 r @
                    str '', the model explains less than half of the variation. It requires approximately '' @
                    show_int improvement_needed @ str '' points of improvement to be reliable.'',
                  action = str ''Review model variables and collect more data to improve prediction quality.''\<rparr>]))"

subsection \<open>The rules on the channels\<close>

fun present_roi :: "roi_value \<Rightarrow> pyfloat option" where
  "present_roi (Roi r) = Some r"
| "present_roi NoRoi = None"
| "present_roi NotAvailable = None"

text \<open>The items whose value is neither \<open>None\<close> nor \<open>'N/A'\<close>, in the dictionary's order.\<close>

definition valid_channels :: "roi_map \<Rightarrow> (ustr \<times> pyfloat) list" where
  "valid_channels roi_by_channel =
     List.map_filter (\<lambda>(ch, v). map_option (Pair ch) (present_roi v)) roi_by_channel"

text \<open>
  \<open>sorted(xs, key=lambda x: x[1], reverse=True)\<close>. Python's sort compares keys with \<open><\<close>
  only and is stable; with \<open>reverse=True\<close> it reverses the list, sorts it ascending and
  reverses the result, so that items with equal keys keep the order they had. The
  ascending sort is written as an insertion sort: each item goes before the first item
  with a greater key. Where a key is a NaN, \<open><\<close> is no order and the result of Python's
  sort depends on the steps of its algorithm; this definition is one such result.
\<close>

fun insert_key :: "ustr \<times> pyfloat \<Rightarrow> (ustr \<times> pyfloat) list \<Rightarrow> (ustr \<times> pyfloat) list" where
  "insert_key x [] = [x]"
| "insert_key x (y # ys) = (if flt (snd x) (snd y) then x # y # ys else y # insert_key x ys)"

definition sort_ascending :: "(ustr \<times> pyfloat) list \<Rightarrow> (ustr \<times> pyfloat) list" where
  "sort_ascending xs = foldl (\<lambda>acc x. insert_key x acc) [] xs"

definition py_sorted_desc :: "(ustr \<times> pyfloat) list \<Rightarrow> (ustr \<times> pyfloat) list" where
  "py_sorted_desc xs = rev (sort_ascending (rev xs))"

text \<open>\<open>max(xs)\<close> and \<open>min(xs)\<close> keep the first item that no later one beats.\<close>

definition py_max :: "pyfloat list \<Rightarrow> pyfloat" where
  "py_max xs = foldl (\<lambda>m x. if fgt x m then x else m) (hd xs) (tl xs)"

definition py_min :: "pyfloat list \<Rightarrow> pyfloat" where
  "py_min xs = foldl (\<lambda>m x. if flt x m then x else m) (hd xs) (tl xs)"

text \<open>
  \<open>sum(xs)\<close> starts from the \<open>int\<close> 0 and adds from the left, each sum rounded (CPython up
  to 3.11; later versions compensate the rounding errors).
\<close>

definition py_sum :: "pyfloat list \<Rightarrow> pyfloat" where
  "py_sum xs = foldl fadd (float_of_int 0) xs"

definition best_insight :: "ustr \<Rightarrow> pyfloat \<Rightarrow> exc + insight list" where
  "best_insight best_channel best_roi =
     (if fgt best_roi (lit_float (3 / 2)) then
        and_then (py_int (fmul (fsub best_roi (lit_float 1)) (float_of_int 20)))
          (\<lambda>n. let increase_pct0 = min 30 n;
                   increase_pct = (if increase_pct0 < 10 then 10 else increase_pct0)
               in Inr [\<lparr>type = str ''success'',
                    title = rocket @ str '' '' @ best_channel @ str '': High-performing channel to prioritize'',
                    description = str ''With a ROI of '' @ format_f 2 best_roi @
                      str '', every dollar invested in '' @ best_channel @ str '' generates $'' @
                      format_f 2 best_roi @ str '' in revenue. This is your most profitable channel.'',
                    action = str ''Gradually increase the budget allocated to '' @ best_channel @
                      str '' by '' @ show_int increase_pct @ str ''% to maximize return on investment.''\<rparr>])
      else if fgt best_roi (lit_float 1) then
        and_then (py_int (fmul (fsub best_roi (lit_float 1)) (float_of_int 30)))
          (\<lambda>n. let increase_pct0 = min 15 n;
                   increase_pct = (if increase_pct0 < 5 then 5 else increase_pct0)
               in Inr [\<lparr>type = str ''info'',
                    title = chart_increasing @ str '' '' @ best_channel @ str '': Profitable channel'',
                    description = str ''With a ROI of '' @ format_f 2 best_roi @ str '', '' @
                      best_channel @ str '' generates a positive return on investment.'',
                    action = str ''Maintain or slightly increase the '' @ best_channel @
                      str '' budget by '' @ show_int increase_pct @
                      str ''% while testing new creative approaches.''\<rparr>])
      else
        Inr [\<lparr>type = str ''warning'',
          title = warning_sign @ str '' All channels underperforming'',
          description = str ''Even the best channel ('' @ best_channel @ str '') has a ROI of '' @
            format_f 2 best_roi @ str '', below 1.0.'',
          action = str ''Review your creative strategies, targets, and messaging. Test new approaches before increasing budgets.''\<rparr>])"

definition worst_insight :: "ustr \<Rightarrow> pyfloat \<Rightarrow> ustr \<Rightarrow> pyfloat \<Rightarrow> exc + insight list" where
  "worst_insight best_channel best_roi worst_channel worst_roi =
     (let performance_gap = fsub best_roi worst_roi
      in and_then (if fgt best_roi (float_of_int 0) then py_truediv worst_roi best_roi
                   else Inr (float_of_int 0))
           (\<lambda>performance_ratio.
             if flt performance_ratio (lit_float (7 / 10)) then
               and_then (py_int (fmul (fsub (float_of_int 1) performance_ratio) (float_of_int 50)))
                 (\<lambda>n1. let reduction_pct0 = min 40 n1;
                           reduction_pct = (if reduction_pct0 < 15 then 15 else reduction_pct0)
                  in and_then (py_int (fmul performance_gap (float_of_int 25)))
                    (\<lambda>n2. let reallocation_pct0 = min 35 n2;
                              reallocation_pct =
                                (if reallocation_pct0 < 20 then 20 else reallocation_pct0)
                     in and_then
                          (py_int (fmul (fsub (float_of_int 1) performance_ratio) (float_of_int 100)))
                       (\<lambda>less.
                         Inr [\<lparr>type = str ''warning'',
                           title = magnifier @ str '' '' @ worst_channel @ str '': Channel to optimize'',
                           description = str ''With a ROI of '' @ format_f 2 worst_roi @ str '', '' @
                             worst_channel @ str '' is '' @ format_f 2 performance_gap @
                             str '' points below '' @ best_channel @ str '' (ROI: '' @
                             format_f 2 best_roi @ str ''), '' @ show_int less @
                             str ''% less performant.'',
                           action = str ''Analyze '' @ worst_channel @
                             str '' performance: targeted audiences, creatives, placements. Reduce budget by '' @
                             show_int reduction_pct @ str ''% and reallocate '' @
                             show_int reallocation_pct @ str ''% to '' @ best_channel @ str ''.''\<rparr>])))
             else Inr []))"

definition diversification_insight ::
  "(ustr \<times> pyfloat) list \<Rightarrow> pyfloat \<Rightarrow> pyfloat \<Rightarrow> exc + insight list" where
  "diversification_insight sorted_channels best_roi worst_roi =
     (let roi_values = map snd sorted_channels;
          roi_variance = fsub (py_max roi_values) (py_min roi_values)
      in and_then (if fgt (py_max roi_values) (float_of_int 0) then
                     and_then (py_truediv roi_variance (py_max roi_values))
                       (\<lambda>q. py_int (fmul q (float_of_int 100)))
                   else Inr 0)
           (\<lambda>roi_range_pct.
             if fgt roi_variance (lit_float (3 / 10)) then
               and_then (int_truediv roi_range_pct 3)
                 (\<lambda>q. and_then (py_int q)
                   (\<lambda>n. let reallocation_pct0 = min 30 n;
                            reallocation_pct =
                              (if reallocation_pct0 < 10 then 10 else reallocation_pct0)
                    in Inr [\<lparr>type = str ''info'',
                         title = briefcase @ str '' Channel diversification'',
                         description = str ''Your channels show varied ROI (from '' @
                           format_f 2 worst_roi @ str '' to '' @ format_f 2 best_roi @
                           str ''), with a gap of '' @ format_f 2 roi_variance @ str '' points ('' @
                           show_int roi_range_pct @
                           str ''% variation), indicating optimization opportunities.'',
                         action = str ''Reallocate '' @ show_int reallocation_pct @
                           str ''% of budget from underperforming channels to the most profitable ones, while maintaining minimal presence to test new opportunities.''\<rparr>]))
             else Inr []))"

definition channel_insights :: "roi_map \<Rightarrow> exc + insight list" where
  "channel_insights roi_by_channel =
     (if roi_by_channel = [] then Inr []
      else
        (let sorted_channels = py_sorted_desc (valid_channels roi_by_channel)
         in if length sorted_channels > 0 then
              (let (best_channel, best_roi) = hd sorted_channels;
                   (worst_channel, worst_roi) = last sorted_channels
               in and_then (best_insight best_channel best_roi)
                    (\<lambda>b. and_then
                      (if length sorted_channels > 1
                       then worst_insight best_channel best_roi worst_channel worst_roi
                       else Inr [])
                      (\<lambda>w. and_then
                        (if length sorted_channels \<ge> 3
                         then diversification_insight sorted_channels best_roi worst_roi
                         else Inr [])
                        (\<lambda>d. Inr (b @ w @ d)))))
            else Inr []))"

subsection \<open>The rule on the whole media mix\<close>

definition portfolio_insight :: "roi_map \<Rightarrow> exc + insight list" where
  "portfolio_insight roi_by_channel =
     (if roi_by_channel \<noteq> [] \<and> length (map snd (valid_channels roi_by_channel)) > 0 then
        (let valid_rois = map snd (valid_channels roi_by_channel);
             above_one_count = length (filter (\<lambda>r. fgt r (lit_float 1)) valid_rois);
             total_count = length valid_rois
         in and_then (py_truediv (py_sum valid_rois) (float_of_int (int (length valid_rois))))
              (\<lambda>avg_roi.
                and_then (if total_count > 0 then
                            and_then (int_truediv (int above_one_count) (int total_count))
                              (\<lambda>q. py_int (fmul q (float_of_int 100)))
                          else Inr 0)
                  (\<lambda>success_rate.
                    if fgt avg_roi (lit_float (6 / 5)) then
                      Inr [\<lparr>type = str ''success'',
                        title = money_bag @ str '' Positive overall performance'',
                        description = str ''Your media mix generates on average $'' @
                          format_f 2 avg_roi @ str '' in revenue for every dollar invested. '' @
                          show_int success_rate @ str ''% of your channels ('' @
                          show_nat above_one_count @ str ''/'' @ show_nat total_count @
                          str '') are profitable.'',
                        action = str ''Maintain this performance by continuing to optimize budgets toward the most performing channels and regularly testing new approaches.''\<rparr>]
                    else if fgt avg_roi (lit_float 1) then
                      Inr [\<lparr>type = str ''info'',
                        title = bar_chart @ str '' Moderate overall performance'',
                        description = str ''Your media mix generates on average $'' @
                          format_f 2 avg_roi @ str '' in revenue for every dollar invested. '' @
                          show_int success_rate @ str ''% of your channels ('' @
                          show_nat above_one_count @ str ''/'' @ show_nat total_count @
                          str '') are profitable.'',
                        action = str ''Optimize your budgets by reallocating to the most performing channels to improve the overall average to $'' @
                          format_f 2 (fmul avg_roi (lit_float (11 / 10))) @ str ''.''\<rparr>]
                    else Inr [])))
      else Inr [])"

subsection \<open>\<open>generate_marketing_insights\<close>\<close>

text \<open>
  The list \<open>insights\<close> grows by \<open>append\<close> only, rule after rule; an exception raised in a
  rule leaves the function, which has no \<open>try\<close>.
\<close>

definition generate_marketing_insights :: "pyfloat option \<Rightarrow> roi_map \<Rightarrow> exc + insight list" where
  "generate_marketing_insights r2_score roi_by_channel =
     and_then (r2_insight r2_score)
       (\<lambda>a. and_then (channel_insights roi_by_channel)
         (\<lambda>b. and_then (portfolio_insight roi_by_channel)
           (\<lambda>c. Inr (a @ b @ c))))"

section \<open>Properties of the float arithmetic\<close>

lemma pow2_pos: "0 < pow2 e"
  by (simp add: pow2_def)

lemma pow2_add: "pow2 (a + b) = pow2 a * pow2 b"
proof -
  have "pow2 e = 2 powi e" for e
    by (simp add: pow2_def power_int_def field_simps)
  then show ?thesis by (simp add: power_int_add)
qed

lemma pow2_mono: "a \<le> b \<Longrightarrow> pow2 a \<le> pow2 b"
proof -
  have "pow2 e = 2 powi e" for e
    by (simp add: pow2_def power_int_def field_simps)
  then show "a \<le> b \<Longrightarrow> pow2 a \<le> pow2 b" by (simp add: power_int_increasing)
qed

lemma pow2_strict_mono: "a < b \<Longrightarrow> pow2 a < pow2 b"
proof -
  have "pow2 e = 2 powi e" for e
    by (simp add: pow2_def power_int_def field_simps)
  then show "a < b \<Longrightarrow> pow2 a < pow2 b" by (simp add: power_int_strict_increasing)
qed

lemma round_half_even_nonneg: "0 \<le> q \<Longrightarrow> 0 \<le> round_half_even q"
  by (auto simp: round_half_even_def Let_def)

lemma round_half_even_upper: "of_int (round_half_even q) \<le> q + 1 / 2"
  by (auto simp: round_half_even_def Let_def) linarith+

lemma round_half_even_lower: "q - 1 / 2 \<le> of_int (round_half_even q)"
  by (auto simp: round_half_even_def Let_def) linarith+

lemma nat_log2_bounds: "0 < n \<Longrightarrow> 2 ^ nat_log2 n \<le> n \<and> n < 2 ^ Suc (nat_log2 n)"
proof (induction n rule: nat_log2.induct)
  case (1 n)
  show ?case
  proof (cases "n < 2")
    case True
    with 1 show ?thesis by (simp add: nat_log2.simps)
  next
    case False
    then have "0 < n div 2" by simp
    with 1 False have ih: "2 ^ nat_log2 (n div 2) \<le> n div 2" "n div 2 < 2 ^ Suc (nat_log2 (n div 2))"
      by auto
    have eq: "nat_log2 n = Suc (nat_log2 (n div 2))" using False by (subst nat_log2.simps) simp
    from ih show ?thesis unfolding eq by auto
  qed
qed

lemma pow_le_of_nat: "2 ^ k \<le> (n::nat) \<Longrightarrow> (2::rat) ^ k \<le> of_nat n"
  by (metis of_nat_le_iff of_nat_numeral of_nat_power)

lemma of_nat_le_pow: "(n::nat) \<le> 2 ^ k \<Longrightarrow> (of_nat n :: rat) \<le> 2 ^ k"
  by (metis of_nat_le_iff of_nat_numeral of_nat_power)

lemma ilog2_bounds:
  assumes "0 < a"
  shows "pow2 (ilog2 a) \<le> a \<and> a < pow2 (ilog2 a + 1)"
proof (cases "1 \<le> a")
  case True
  define n where "n = nat \<lfloor>a\<rfloor>"
  have fl: "1 \<le> \<lfloor>a\<rfloor>" using True by (simp add: le_floor_iff)
  then have n0: "0 < n" by (simp add: n_def)
  have nz: "(of_nat n :: rat) = of_int \<lfloor>a\<rfloor>" using fl by (simp add: n_def)
  have n1: "of_nat n \<le> a" unfolding nz by (rule of_int_floor_le)
  have n2: "a < of_nat n + 1" unfolding nz using floor_correct[of a] by simp
  from nat_log2_bounds[OF n0] have b: "2 ^ nat_log2 n \<le> n" "n < 2 ^ Suc (nat_log2 n)" by auto
  have e: "ilog2 a = int (nat_log2 n)" using True by (simp add: ilog2_def n_def)
  have "(2::rat) ^ nat_log2 n \<le> a"
    using pow_le_of_nat[OF b(1)] n1 by (rule order_trans)
  then have lo: "pow2 (ilog2 a) \<le> a" by (simp add: e pow2_def)
  have "n + 1 \<le> 2 ^ Suc (nat_log2 n)" using b(2) by simp
  from of_nat_le_pow[OF this] have "(of_nat n :: rat) + 1 \<le> 2 ^ Suc (nat_log2 n)" by simp
  with n2 have "a < 2 ^ Suc (nat_log2 n)" by (rule less_le_trans)
  then have hi: "a < pow2 (ilog2 a + 1)" by (simp add: e pow2_def nat_add_distrib)
  from lo hi show ?thesis ..
next
  case False
  define z where "z = \<lceil>1 / a\<rceil>"
  define c where "c = nat z"
  define k where "k = nat_log2 (c - 1)"
  from False assms have inv: "1 < 1 / a" by simp
  have z1: "1 / a \<le> of_int z" "of_int z - 1 < 1 / a"
    unfolding z_def using ceiling_correct[of "1 / a"] by auto
  from inv z1(1) have "(1::rat) < of_int z" by (rule less_le_trans)
  then have z2: "2 \<le> z" by simp
  then have cz: "(of_nat c :: rat) = of_int z" "(of_nat (c - 1) :: rat) = of_int z - 1" "0 < c - 1"
    by (simp_all add: c_def of_nat_diff)
  from nat_log2_bounds[OF cz(3)] have b: "2 ^ k \<le> c - 1" "c - 1 < 2 ^ Suc k" by (auto simp: k_def)
  have e: "ilog2 a = - int (Suc k)" using False by (simp add: ilog2_def c_def z_def k_def)
  have "c \<le> 2 ^ Suc k" using b(2) by simp
  from of_nat_le_pow[OF this] have "of_int z \<le> (2::rat) ^ Suc k" by (simp only: cz(1))
  with z1(1) have "1 / a \<le> 2 ^ Suc k" by (rule order_trans)
  then have "1 \<le> a * 2 ^ Suc k" using assms by (simp add: field_simps)
  moreover have p1: "pow2 (- int (Suc k)) = 1 / 2 ^ Suc k"
    by (simp add: pow2_def nat_add_distrib)
  ultimately have lo: "pow2 (ilog2 a) \<le> a"
  proof -
    assume h: "1 \<le> a * 2 ^ Suc k"
    have "pow2 (ilog2 a) = 1 / 2 ^ Suc k" unfolding e by (rule p1)
    also have "\<dots> \<le> a" using h by (simp add: field_simps)
    finally show ?thesis .
  qed
  from pow_le_of_nat[OF b(1)] have "(2::rat) ^ k \<le> of_int z - 1" by (simp only: cz(2))
  from this z1(2) have "2 ^ k < 1 / a" by (rule le_less_trans)
  then have "a * 2 ^ k < 1" using assms by (simp add: field_simps)
  moreover have p2: "pow2 (- int (Suc k) + 1) = 1 / 2 ^ k"
    by (cases k) (simp_all add: pow2_def nat_add_distrib)
  ultimately have hi: "a < pow2 (ilog2 a + 1)"
  proof -
    assume h: "a * 2 ^ k < 1"
    have "a < 1 / 2 ^ k" using h by (simp add: field_simps)
    also have "\<dots> = pow2 (ilog2 a + 1)" unfolding e by (rule p2[symmetric])
    finally show ?thesis .
  qed
  from lo hi show ?thesis ..
qed

lemma ilog2_unique:
  assumes "pow2 e \<le> a" "a < pow2 (e + 1)"
  shows "ilog2 a = e"
proof -
  have "0 < a" using assms(1) pow2_pos[of e] by simp
  from ilog2_bounds[OF this] have b: "pow2 (ilog2 a) \<le> a" "a < pow2 (ilog2 a + 1)" by auto
  have "\<not> ilog2 a < e"
  proof
    assume "ilog2 a < e"
    then have "pow2 (ilog2 a + 1) \<le> pow2 e" by (intro pow2_mono) simp
    with b(2) assms(1) show False by simp
  qed
  moreover have "\<not> e < ilog2 a"
  proof
    assume "e < ilog2 a"
    then have "pow2 (e + 1) \<le> pow2 (ilog2 a)" by (intro pow2_mono) simp
    with b(1) assms(2) show False by simp
  qed
  ultimately show ?thesis by simp
qed

lemma round_double_nonneg:
  assumes "0 \<le> q"
  shows "round_double q = PInf \<or> (\<exists>v. round_double q = Fin v \<and> 0 \<le> v)"
proof (cases "q = 0")
  case True
  then show ?thesis by (simp add: round_double_def)
next
  case False
  with assms have pos: "0 < q" by simp
  define ulp where "ulp = pow2 (max (ilog2 q) (- 1022) - 52)"
  define n where "n = round_half_even (q / ulp)"
  have "0 < ulp" by (simp add: ulp_def pow2_pos)
  then have "0 \<le> q / ulp" using pos by simp
  then have "0 \<le> n" unfolding n_def by (rule round_half_even_nonneg)
  then have "0 \<le> of_int n * ulp" using \<open>0 < ulp\<close> by simp
  then show ?thesis using pos False
    by (simp add: round_double_def Let_def ulp_def[symmetric] n_def[symmetric])
qed

lemma round_double_finite:
  assumes "0 < a" "a \<le> pow2 1022"
  shows "\<exists>v. round_double a = Fin v \<and> 0 \<le> v \<and> v \<le> 2 * a + pow2 (- 1074)"
proof -
  define e where "e = max (ilog2 a) (- 1022)"
  define ulp where "ulp = pow2 (e - 52)"
  define n where "n = round_half_even (a / ulp)"
  define r where "r = of_int n * ulp"
  have ulp0: "0 < ulp" by (simp add: ulp_def pow2_pos)
  have "ulp \<le> a \<or> ulp = pow2 (- 1074)"
  proof (cases "- 1022 \<le> ilog2 a")
    case True
    then have "e = ilog2 a" by (simp add: e_def)
    then have "ulp \<le> pow2 (ilog2 a)" unfolding ulp_def by (intro pow2_mono) simp
    with ilog2_bounds[OF assms(1)] show ?thesis by simp
  next
    case False
    then have "e = - 1022" by (simp add: e_def)
    then show ?thesis by (simp add: ulp_def)
  qed
  then have ulp_le: "ulp \<le> a + pow2 (- 1074)"
    using assms(1) pow2_pos[of "- 1074"] by auto
  have n0: "0 \<le> n" unfolding n_def using assms(1) ulp0 by (intro round_half_even_nonneg) simp
  have "of_int n \<le> a / ulp + 1 / 2" unfolding n_def by (rule round_half_even_upper)
  then have "of_int n * ulp \<le> (a / ulp + 1 / 2) * ulp"
    using ulp0 by (intro mult_right_mono) simp_all
  also have "\<dots> = a + ulp / 2" using ulp0 by (simp add: field_simps)
  finally have r_le: "r \<le> a + ulp / 2" by (simp add: r_def)
  have r0: "0 \<le> r" using n0 ulp0 by (simp add: r_def)
  have r_le2: "r \<le> 2 * a + pow2 (- 1074)" using r_le ulp_le ulp0 by simp
  have "pow2 (- 1074) \<le> pow2 1022" by (intro pow2_mono) simp
  then have "2 * a + pow2 (- 1074) \<le> 3 * pow2 1022" using assms(2) by simp
  also have "\<dots> < pow2 1024" by (simp add: pow2_def)
  finally have no_ovf: "\<not> pow2 1024 \<le> r" using r_le2 by simp
  have rd: "round_double a = (if n = 0 then Fin 0 else Fin r)"
    using assms(1) no_ovf
    by (simp add: round_double_def Let_def e_def[symmetric] ulp_def[symmetric] n_def[symmetric]
        r_def[symmetric])
  show ?thesis
  proof (cases "n = 0")
    case True
    with rd assms(1) pow2_pos[of "- 1074"] show ?thesis by simp
  next
    case False
    with rd r0 r_le2 show ?thesis by simp
  qed
qed

text \<open>Rules that let the simplifier compute a rounding at a numeral.\<close>

lemma floor_rat_numeral: "\<lfloor>numeral a / numeral b :: rat\<rfloor> = numeral a div numeral b"
  by (metis floor_divide_of_int_eq of_int_numeral)

lemma ceiling_rat_numeral: "\<lceil>numeral a / numeral b :: rat\<rceil> = - (- numeral a div numeral b)"
  by (metis ceiling_divide_eq_div of_int_numeral)

lemma floor_rat_one_numeral: "\<lfloor>1 / numeral b :: rat\<rfloor> = 1 div numeral b"
  by (metis floor_divide_of_int_eq of_int_numeral of_int_1)

lemma nat_log2_small: "n < 2 \<Longrightarrow> nat_log2 n = 0"
  by (simp add: nat_log2.simps)

lemma nat_log2_step: "2 \<le> n \<Longrightarrow> nat_log2 n = Suc (nat_log2 (n div 2))"
  by (subst nat_log2.simps) simp

lemmas eval_round = round_double_def ilog2_def pow2_def round_half_even_def nat_log2_small
  nat_log2_step Let_def floor_rat_numeral ceiling_rat_numeral floor_rat_one_numeral
  lit_float_def float_of_int_def

lemma float_consts:
  "lit_float (3 / 4) = Fin (3 / 4)" "lit_float (1 / 2) = Fin (1 / 2)" "lit_float 1 = Fin 1"
  "lit_float (3 / 2) = Fin (3 / 2)"
  "float_of_int 0 = Fin 0" "float_of_int 1 = Fin 1" "float_of_int 20 = Fin 20"
  "float_of_int 25 = Fin 25" "float_of_int 30 = Fin 30" "float_of_int 50 = Fin 50"
  "float_of_int 100 = Fin 100"
  by (simp_all add: eval_round)

lemma float_consts_inexact:
  "lit_float (7 / 10) = Fin (3152519739159347 / 4503599627370496)"
  "lit_float (3 / 10) = Fin (5404319552844595 / 18014398509481984)"
  "lit_float (6 / 5) = Fin (5404319552844595 / 4503599627370496)"
  "lit_float (11 / 10) = Fin (2476979795053773 / 2251799813685248)"
  by (simp_all add: eval_round)

lemma fge_Fin: "fge x (Fin c) \<longleftrightarrow> x = PInf \<or> (x = NegZero \<and> c \<le> 0) \<or> (\<exists>q. x = Fin q \<and> c \<le> q)"
  by (cases x) (auto simp: fge_def)

lemma flt_Fin: "flt x (Fin c) \<longleftrightarrow> x = NInf \<or> (x = NegZero \<and> 0 < c) \<or> (\<exists>q. x = Fin q \<and> q < c)"
  by (cases x) auto

lemma fsub_Fin_finite:
  assumes "q < c" "c - q \<le> pow2 1022"
  shows "\<exists>v. fsub (Fin c) (Fin q) = Fin v \<and> 0 \<le> v \<and> v \<le> 2 * (c - q) + pow2 (- 1074)"
proof -
  have "fsub (Fin c) (Fin q) = round_double (c - q)"
    using assms(1) by (auto simp: fsub_def fadd_def)
  with round_double_finite[of "c - q"] assms show ?thesis by simp
qed

lemma fmul_Fin_finite:
  assumes "0 \<le> v" "0 \<le> c" "v * c \<le> pow2 1022"
  shows "\<exists>w. fmul (Fin v) (Fin c) = Fin w \<and> 0 \<le> w"
proof (cases "v * c = 0")
  case True
  with assms show ?thesis by (auto simp: fmul_def signed_zero_def)
next
  case False
  with assms have "0 < v * c" by (simp add: less_le)
  from round_double_finite[OF this assms(3)] False show ?thesis
    by (auto simp: fmul_def)
qed

lemma fsub_Fin_nonneg:
  assumes "flt x (Fin c)"
  shows "fsub (Fin c) x = PInf \<or> (\<exists>v. fsub (Fin c) x = Fin v \<and> 0 \<le> v)"
proof -
  from assms consider "x = NInf" | "x = NegZero" "0 < c" | q where "x = Fin q" "q < c"
    by (auto simp: flt_Fin)
  then show ?thesis
  proof cases
    case 1
    then show ?thesis by (simp add: fsub_def fadd_def)
  next
    case 2
    then have "fsub (Fin c) x = round_double c" by (simp add: fsub_def fadd_def)
    with round_double_nonneg[of c] 2 show ?thesis by simp
  next
    case 3
    then have "fsub (Fin c) x = round_double (c - q)" by (auto simp: fsub_def fadd_def)
    with round_double_nonneg[of "c - q"] 3 show ?thesis by simp
  qed
qed

lemma fmul_nonneg:
  assumes "y = PInf \<or> (\<exists>v. y = Fin v \<and> 0 \<le> v)" "0 < c"
  shows "fmul y (Fin c) = PInf \<or> (\<exists>w. fmul y (Fin c) = Fin w \<and> 0 \<le> w)"
proof -
  from assms(1) consider "y = PInf" | v where "y = Fin v" "0 \<le> v" by auto
  then show ?thesis
  proof cases
    case 1
    with assms(2) show ?thesis by (simp add: fmul_def is_zero_def signed_inf_def)
  next
    case 2
    show ?thesis
    proof (cases "v = 0")
      case True
      with 2 assms(2) show ?thesis by (simp add: fmul_def signed_zero_def)
    next
      case False
      with 2 assms(2) have "fmul y (Fin c) = round_double (v * c)" "0 \<le> v * c"
        by (simp_all add: fmul_def)
      with round_double_nonneg[of "v * c"] show ?thesis by simp
    qed
  qed
qed

lemma trunc_nonneg: "0 \<le> x \<Longrightarrow> trunc x = \<lfloor>x\<rfloor>"
  by (simp add: trunc_def)

lemma show_nat_small: "n < 10 \<Longrightarrow> show_nat n = [digit_char n]"
  by (simp add: show_nat.simps)

lemma show_nat_step: "10 \<le> n \<Longrightarrow> show_nat n = show_nat (n div 10) @ [digit_char (n mod 10)]"
  by (subst show_nat.simps) simp

lemmas eval_format = format_fixed_def show_int_def show_nat_small show_nat_step digit_char_def
  str_def round_half_even_def Let_def floor_rat_numeral

lemmas eval_float = eval_round fsub_def fadd_def fmul_def fdiv_def signed_zero_def signed_inf_def
  is_zero_def trunc_def fge_def fgt_def

lemma le_round_half_even: "of_int k \<le> q \<Longrightarrow> k \<le> round_half_even q"
proof -
  assume "of_int k \<le> q"
  then have "k \<le> \<lfloor>q\<rfloor>" by (simp add: le_floor_iff)
  moreover have "\<lfloor>q\<rfloor> \<le> round_half_even q" by (auto simp: round_half_even_def Let_def)
  ultimately show ?thesis by simp
qed

lemma round_double_lower:
  assumes "pow2 e \<le> a" "- 1022 \<le> e"
  shows "round_double a = PInf \<or> (\<exists>v. round_double a = Fin v \<and> pow2 e \<le> v \<and> v < pow2 1024)"
proof -
  have a0: "0 < a" using assms(1) pow2_pos[of e] by simp
  from ilog2_bounds[OF a0] have b: "pow2 (ilog2 a) \<le> a" "a < pow2 (ilog2 a + 1)" by auto
  have eE: "e \<le> ilog2 a"
  proof (rule ccontr)
    assume "\<not> e \<le> ilog2 a"
    then have "pow2 (ilog2 a + 1) \<le> pow2 e" by (intro pow2_mono) simp
    with b(2) assms(1) show False by simp
  qed
  define E where "E = ilog2 a"
  define ulp where "ulp = pow2 (E - 52)"
  define n where "n = round_half_even (a / ulp)"
  define r where "r = of_int n * ulp"
  have mx: "max (ilog2 a) (- 1022) = E" using eE assms(2) by (simp add: E_def)
  have ulp0: "0 < ulp" by (simp add: ulp_def pow2_pos)
  have "pow2 E = pow2 52 * ulp" unfolding ulp_def using pow2_add[of 52 "E - 52"] by simp
  then have pe: "pow2 E = 2 ^ 52 * ulp" by (simp add: pow2_def)
  have "2 ^ 52 * ulp \<le> a" using b(1) pe by (simp add: E_def)
  then have "(2::rat) ^ 52 \<le> a / ulp" using ulp0 by (simp add: field_simps)
  then have "of_int (2 ^ 52) \<le> a / ulp" by simp
  then have n52: "2 ^ 52 \<le> n" unfolding n_def by (rule le_round_half_even)
  then have "(2::rat) ^ 52 \<le> of_int n" by (metis of_int_le_iff of_int_numeral of_int_power)
  then have "2 ^ 52 * ulp \<le> r" unfolding r_def using ulp0 by simp
  then have rE: "pow2 E \<le> r" using pe by simp
  have "pow2 e \<le> pow2 E" using eE by (simp add: E_def pow2_mono)
  with rE have re: "pow2 e \<le> r" by simp
  have n0: "n \<noteq> 0" using n52 by auto
  have "round_double a = (if pow2 1024 \<le> r then PInf else Fin r)"
    using a0 n0
    by (simp add: round_double_def Let_def mx ulp_def[symmetric] n_def[symmetric] r_def[symmetric])
  with re show ?thesis by auto
qed

lemma round_double_overflow: "pow2 1024 \<le> a \<Longrightarrow> round_double a = PInf"
  using round_double_lower[of 1024 a] by auto

lemma fmul_overflow:
  assumes "y = PInf \<or> (\<exists>v. y = Fin v \<and> pow2 1023 \<le> v)" "2 \<le> c"
  shows "fmul y (Fin c) = PInf"
proof -
  from assms(1) consider "y = PInf" | v where "y = Fin v" "pow2 1023 \<le> v" by auto
  then show ?thesis
  proof cases
    case 1
    with assms(2) show ?thesis by (simp add: fmul_def is_zero_def signed_inf_def)
  next
    case 2
    have v0: "0 < v" using 2(2) pow2_pos[of 1023] by simp
    have "pow2 1024 = 2 * pow2 1023" using pow2_add[of 1 1023] by (simp add: pow2_def)
    also have "\<dots> \<le> c * v"
      using assms(2) 2(2) v0 pow2_pos[of 1023] by (intro mult_mono) simp_all
    finally have "pow2 1024 \<le> v * c" by (simp add: mult.commute)
    from round_double_overflow[OF this] v0 assms(2) 2(1) show ?thesis
      by (simp add: fmul_def)
  qed
qed

section \<open>Properties of the insight engine\<close>

lemma and_then_Inr [simp]: "and_then (Inr v) f = f v"
  by (simp add: and_then_def)

lemma and_then_Inl [simp]: "and_then (Inl e) f = Inl e"
  by (simp add: and_then_def)

lemma generate_None:
  "generate_marketing_insights None roi =
     and_then (channel_insights roi) (\<lambda>b. and_then (portfolio_insight roi) (\<lambda>c. Inr (b @ c)))"
  by (simp add: generate_marketing_insights_def r2_insight_def)

lemma generate_Cons:
  "r2_insight r2 = Inr [i] \<Longrightarrow>
   generate_marketing_insights r2 roi = map_sum id ((#) i) (generate_marketing_insights None roi)"
  by (cases "channel_insights roi"; cases "portfolio_insight roi")
     (simp_all add: generate_marketing_insights_def r2_insight_def)

lemma generate_Nil:
  "r2_insight r2 = Inr [] \<Longrightarrow>
   generate_marketing_insights r2 roi = generate_marketing_insights None roi"
  by (simp add: generate_marketing_insights_def r2_insight_def)

lemma generate_Inl:
  "r2_insight r2 = Inl e \<Longrightarrow> generate_marketing_insights r2 roi = Inl e"
  by (simp add: generate_marketing_insights_def)

text \<open>
  Claim C6, amended. With a score of at least 0.75 (and with no score)
  \<open>generate_marketing_insights\<close> does what it does with no score: no record on the fit.
  With \<open>0.5 \<le> score < 0.75\<close> the double \<open>(0.75 - score) * 100\<close> is finite and not negative,
  and when the rules on the channels return, one record of type \<open>warning\<close> stands before
  their records, its description holding the score to three decimals and the floor of
  that double. With \<open>score < 0.5\<close> the double \<open>(0.5 - score) * 100\<close> is either finite and not
  negative, and one record of type \<open>danger\<close> with its floor stands first, or \<open>+inf\<close>, and
  the function raises \<open>OverflowError\<close>. The code computes the integers with \<open>int\<close>, which
  truncates: on a double that is not negative, truncation is the floor.
\<close>

theorem fit_score_insight:
  "(fge x (lit_float (3 / 4)) \<longrightarrow>
      generate_marketing_insights (Some x) roi = generate_marketing_insights None roi) \<and>
   (fge x (lit_float (1 / 2)) \<and> \<not> fge x (lit_float (3 / 4)) \<longrightarrow>
      (\<exists>v. fmul (fsub (lit_float (3 / 4)) x) (float_of_int 100) = Fin v \<and> 0 \<le> v \<and>
        generate_marketing_insights (Some x) roi =
          map_sum id
            ((#) \<lparr>type = str ''warning'',
                  title = warning_sign @ str '' Model needs improvement for better accuracy'',
                  description = str ''With an R'' @ superscript_two @ str '' of '' @ format_f 3 x @
                    str '', the model explains a significant portion of the variation but can be improved by approximately '' @
                    show_int \<lfloor>v\<rfloor> @ str '' points.'',
                  action = str ''Enrich your data (external variables, seasonality, events) to improve model accuracy.''\<rparr>)
            (generate_marketing_insights None roi))) \<and>
   (flt x (lit_float (1 / 2)) \<longrightarrow>
      (fmul (fsub (lit_float (1 / 2)) x) (float_of_int 100) = PInf \<and>
       generate_marketing_insights (Some x) roi = Inl OverflowError) \<or>
      (\<exists>v. fmul (fsub (lit_float (1 / 2)) x) (float_of_int 100) = Fin v \<and> 0 \<le> v \<and>
        generate_marketing_insights (Some x) roi =
          map_sum id
            ((#) \<lparr>type = str ''danger'',
                  title = red_circle @ str '' Model requires revision'',
                  description = str ''With an R'' @ superscript_two @ str '' of '' @ format_f 3 x @
                    str '', the model explains less than half of the variation. It requires approximately '' @
                    show_int \<lfloor>v\<rfloor> @ str '' points of improvement to be reliable.'',
                  action = str ''Review model variables and collect more data to improve prediction quality.''\<rparr>)
            (generate_marketing_insights None roi))) \<and>
   generate_marketing_insights None roi =
     and_then (channel_insights roi) (\<lambda>b. and_then (portfolio_insight roi) (\<lambda>c. Inr (b @ c)))"
proof (intro conjI impI)
  assume "fge x (lit_float (3 / 4))"
  then have "r2_insight (Some x) = Inr []" by (simp add: r2_insight_def)
  then show "generate_marketing_insights (Some x) roi = generate_marketing_insights None roi"
    by (rule generate_Nil)
next
  assume a: "fge x (lit_float (1 / 2)) \<and> \<not> fge x (lit_float (3 / 4))"
  then obtain q where x: "x = Fin q" and q: "1 / 2 \<le> q" "q < 3 / 4"
    by (auto simp: float_consts fge_Fin)
  have "pow2 1022 \<ge> 1" using pow2_mono[of 0 1022] by (simp add: pow2_def)
  then have b: "3 / 4 - q \<le> pow2 1022" using q by simp
  from fsub_Fin_finite[OF q(2) b] obtain u where
    u: "fsub (Fin (3 / 4)) (Fin q) = Fin u" "0 \<le> u" "u \<le> 2 * (3 / 4 - q) + pow2 (- 1074)" by auto
  have "pow2 (- 1074) \<le> pow2 0" by (intro pow2_mono) simp
  then have "u \<le> 2" using u(3) q by (simp add: pow2_def)
  then have "u * 100 \<le> 200" by simp
  also have "\<dots> \<le> pow2 1022" using pow2_mono[of 8 1022] by (simp add: pow2_def)
  finally have "u * 100 \<le> pow2 1022" .
  from fmul_Fin_finite[OF u(2) _ this] obtain v where
    v: "fmul (Fin u) (Fin 100) = Fin v" "0 \<le> v" by auto
  have p: "fmul (fsub (lit_float (3 / 4)) x) (float_of_int 100) = Fin v"
    by (simp add: float_consts x u v)
  have "r2_insight (Some x) =
    Inr [\<lparr>type = str ''warning'',
          title = warning_sign @ str '' Model needs improvement for better accuracy'',
          description = str ''With an R'' @ superscript_two @ str '' of '' @ format_f 3 x @
            str '', the model explains a significant portion of the variation but can be improved by approximately '' @
            show_int \<lfloor>v\<rfloor> @ str '' points.'',
          action = str ''Enrich your data (external variables, seasonality, events) to improve model accuracy.''\<rparr>]"
    using a by (simp add: r2_insight_def p trunc_nonneg[OF v(2)])
  from generate_Cons[OF this] p v(2)
  show "\<exists>v. fmul (fsub (lit_float (3 / 4)) x) (float_of_int 100) = Fin v \<and> 0 \<le> v \<and>
        generate_marketing_insights (Some x) roi =
          map_sum id
            ((#) \<lparr>type = str ''warning'',
                  title = warning_sign @ str '' Model needs improvement for better accuracy'',
                  description = str ''With an R'' @ superscript_two @ str '' of '' @ format_f 3 x @
                    str '', the model explains a significant portion of the variation but can be improved by approximately '' @
                    show_int \<lfloor>v\<rfloor> @ str '' points.'',
                  action = str ''Enrich your data (external variables, seasonality, events) to improve model accuracy.''\<rparr>)
            (generate_marketing_insights None roi)"
    by blast
next
  assume a: "flt x (lit_float (1 / 2))"
  then have lt: "flt x (Fin (1 / 2))" by (simp add: float_consts)
  then have n1: "\<not> fge x (lit_float (3 / 4))" "\<not> fge x (lit_float (1 / 2))"
    by (auto simp: float_consts fge_Fin flt_Fin)
  let ?p = "fmul (fsub (lit_float (1 / 2)) x) (float_of_int 100)"
  from fmul_nonneg[OF fsub_Fin_nonneg[OF lt], of 100]
  consider "?p = PInf" | v where "?p = Fin v" "0 \<le> v" by (auto simp: float_consts)
  then show "(?p = PInf \<and> generate_marketing_insights (Some x) roi = Inl OverflowError) \<or>
      (\<exists>v. ?p = Fin v \<and> 0 \<le> v \<and>
        generate_marketing_insights (Some x) roi =
          map_sum id
            ((#) \<lparr>type = str ''danger'',
                  title = red_circle @ str '' Model requires revision'',
                  description = str ''With an R'' @ superscript_two @ str '' of '' @ format_f 3 x @
                    str '', the model explains less than half of the variation. It requires approximately '' @
                    show_int \<lfloor>v\<rfloor> @ str '' points of improvement to be reliable.'',
                  action = str ''Review model variables and collect more data to improve prediction quality.''\<rparr>)
            (generate_marketing_insights None roi))"
  proof cases
    case 1
    then have "r2_insight (Some x) = Inl OverflowError" using n1 by (simp add: r2_insight_def)
    from generate_Inl[OF this] 1 show ?thesis by simp
  next
    case 2
    have "r2_insight (Some x) =
      Inr [\<lparr>type = str ''danger'',
                  title = red_circle @ str '' Model requires revision'',
                  description = str ''With an R'' @ superscript_two @ str '' of '' @ format_f 3 x @
                    str '', the model explains less than half of the variation. It requires approximately '' @
                    show_int \<lfloor>v\<rfloor> @ str '' points of improvement to be reliable.'',
                  action = str ''Review model variables and collect more data to improve prediction quality.''\<rparr>]"
      using n1 by (simp add: r2_insight_def 2 trunc_nonneg[OF 2(2)])
    from generate_Cons[OF this] 2 show ?thesis by blast
  qed
next
  show "generate_marketing_insights None roi =
     and_then (channel_insights roi) (\<lambda>b. and_then (portfolio_insight roi) (\<lambda>c. Inr (b @ c)))"
    by (rule generate_None)
qed

text \<open>
  C6 at the scores 0.55 (the product is 19.999999999999996, printed as 19), 0.12345 and
  0.9.
\<close>

theorem fit_score_insight_witness:
  "generate_marketing_insights (Some (lit_float (11 / 20))) [] =
     Inr [\<lparr>type = str ''warning'',
           title = warning_sign @ str '' Model needs improvement for better accuracy'',
           description = str ''With an R'' @ superscript_two @
             str '' of 0.550, the model explains a significant portion of the variation but can be improved by approximately 19 points.'',
           action = str ''Enrich your data (external variables, seasonality, events) to improve model accuracy.''\<rparr>] \<and>
   generate_marketing_insights (Some (lit_float (12345 / 100000))) [] =
     Inr [\<lparr>type = str ''danger'',
           title = red_circle @ str '' Model requires revision'',
           description = str ''With an R'' @ superscript_two @
             str '' of 0.123, the model explains less than half of the variation. It requires approximately 37 points of improvement to be reliable.'',
           action = str ''Review model variables and collect more data to improve prediction quality.''\<rparr>] \<and>
   generate_marketing_insights (Some (lit_float (9 / 10))) [] = Inr []"
proof -
  have e: "generate_marketing_insights None [] = Inr []"
    by (simp add: generate_marketing_insights_def r2_insight_def channel_insights_def
        portfolio_insight_def)
  have x1: "lit_float (11 / 20) = Fin (2476979795053773 / 4503599627370496)"
    and x2: "lit_float (12345 / 100000) = Fin (2223877495995551 / 18014398509481984)"
    and x3: "lit_float (9 / 10) = Fin (8106479329266893 / 9007199254740992)"
    by (simp_all add: eval_round)
  have p1: "fmul (fsub (lit_float (3 / 4)) (lit_float (11 / 20))) (float_of_int 100) =
      Fin (5629499534213119 / 281474976710656)"
    and p2: "fmul (fsub (lit_float (1 / 2)) (lit_float (12345 / 100000))) (float_of_int 100) =
      Fin (1324867531004969 / 35184372088832)"
    by (simp_all add: eval_float)
  have f1: "format_f 3 (lit_float (11 / 20)) = str ''0.550''"
    and f2: "format_f 3 (lit_float (12345 / 100000)) = str ''0.123''"
    using x1 x2 by (simp_all add: eval_format)
  have i1: "show_int \<lfloor>5629499534213119 / 281474976710656 :: rat\<rfloor> = str ''19''"
    and i2: "show_int \<lfloor>1324867531004969 / 35184372088832 :: rat\<rfloor> = str ''37''"
    by (simp_all add: eval_format)
  have g: "fge (lit_float (11 / 20)) (lit_float (1 / 2))"
    "\<not> fge (lit_float (11 / 20)) (lit_float (3 / 4))"
    "flt (lit_float (12345 / 100000)) (lit_float (1 / 2))"
    "fge (lit_float (9 / 10)) (lit_float (3 / 4))"
    using x1 x2 x3 by (simp_all add: float_consts fge_def)
  have c1: "str ''With an R'' @ superscript_two @ str '' of '' @ str ''0.550'' @
      str '', the model explains a significant portion of the variation but can be improved by approximately '' @
      str ''19'' @ str '' points.'' =
    str ''With an R'' @ superscript_two @
      str '' of 0.550, the model explains a significant portion of the variation but can be improved by approximately 19 points.''"
    and c2: "str ''With an R'' @ superscript_two @ str '' of '' @ str ''0.123'' @
      str '', the model explains less than half of the variation. It requires approximately '' @
      str ''37'' @ str '' points of improvement to be reliable.'' =
    str ''With an R'' @ superscript_two @
      str '' of 0.123, the model explains less than half of the variation. It requires approximately 37 points of improvement to be reliable.''"
    by (simp_all add: str_def)
  from fit_score_insight[of "lit_float (11 / 20)" "[]", THEN conjunct2, THEN conjunct1,
      rule_format, OF conjI[OF g(1) g(2)]]
  obtain v where v: "fmul (fsub (lit_float (3 / 4)) (lit_float (11 / 20))) (float_of_int 100) = Fin v"
    "generate_marketing_insights (Some (lit_float (11 / 20))) [] =
      map_sum id
        ((#) \<lparr>type = str ''warning'',
              title = warning_sign @ str '' Model needs improvement for better accuracy'',
              description = str ''With an R'' @ superscript_two @ str '' of '' @
                format_f 3 (lit_float (11 / 20)) @
                str '', the model explains a significant portion of the variation but can be improved by approximately '' @
                show_int \<lfloor>v\<rfloor> @ str '' points.'',
              action = str ''Enrich your data (external variables, seasonality, events) to improve model accuracy.''\<rparr>)
        (generate_marketing_insights None [])"
    by blast
  from v(1) have "v = 5629499534213119 / 281474976710656" unfolding p1 by simp
  then have w1: "generate_marketing_insights (Some (lit_float (11 / 20))) [] =
     Inr [\<lparr>type = str ''warning'',
           title = warning_sign @ str '' Model needs improvement for better accuracy'',
           description = str ''With an R'' @ superscript_two @
             str '' of 0.550, the model explains a significant portion of the variation but can be improved by approximately 19 points.'',
           action = str ''Enrich your data (external variables, seasonality, events) to improve model accuracy.''\<rparr>]"
    unfolding v(2) e f1 by (simp only: i1 c1 map_sum.simps id_apply)
  from fit_score_insight[of "lit_float (12345 / 100000)" "[]", THEN conjunct2, THEN conjunct2,
      THEN conjunct1, rule_format, OF g(3)] p2
  obtain u where u: "fmul (fsub (lit_float (1 / 2)) (lit_float (12345 / 100000))) (float_of_int 100) = Fin u"
    "generate_marketing_insights (Some (lit_float (12345 / 100000))) [] =
      map_sum id
        ((#) \<lparr>type = str ''danger'',
              title = red_circle @ str '' Model requires revision'',
              description = str ''With an R'' @ superscript_two @ str '' of '' @
                format_f 3 (lit_float (12345 / 100000)) @
                str '', the model explains less than half of the variation. It requires approximately '' @
                show_int \<lfloor>u\<rfloor> @ str '' points of improvement to be reliable.'',
              action = str ''Review model variables and collect more data to improve prediction quality.''\<rparr>)
        (generate_marketing_insights None [])"
    by auto
  from u(1) have "u = 1324867531004969 / 35184372088832" unfolding p2 by simp
  then have w2: "generate_marketing_insights (Some (lit_float (12345 / 100000))) [] =
     Inr [\<lparr>type = str ''danger'',
           title = red_circle @ str '' Model requires revision'',
           description = str ''With an R'' @ superscript_two @
             str '' of 0.123, the model explains less than half of the variation. It requires approximately 37 points of improvement to be reliable.'',
           action = str ''Review model variables and collect more data to improve prediction quality.''\<rparr>]"
    unfolding u(2) e f2 by (simp only: i2 c2 map_sum.simps id_apply)
  from fit_score_insight[of "lit_float (9 / 10)" "[]", THEN conjunct1, rule_format, OF g(4)]
  have w3: "generate_marketing_insights (Some (lit_float (9 / 10))) [] = Inr []"
    by (simp only: e)
  from w1 w2 w3 show ?thesis by (intro conjI)
qed

text \<open>
  Claim C6 as it is written fails for a score below 0.5 so far from zero that
  \<open>(0.5 - score) * 100\<close> overflows: at \<open>-2\<^sup>1\<^sup>0\<^sup>2\<^sup>3\<close> (about \<open>-9e307\<close>) and at \<open>-inf\<close> the function
  raises \<open>OverflowError\<close> and returns no record.
\<close>

theorem fit_score_insight_counterexample:
  "flt (Fin (- pow2 1023)) (lit_float (1 / 2)) \<and>
   generate_marketing_insights (Some (Fin (- pow2 1023))) [] = Inl OverflowError \<and>
   flt NInf (lit_float (1 / 2)) \<and>
   generate_marketing_insights (Some NInf) [] = Inl OverflowError"
proof -
  let ?x = "Fin (- pow2 1023)"
  have neg: "- pow2 1023 < 0" using pow2_pos[of 1023] by simp
  then have lt: "flt ?x (lit_float (1 / 2))" "flt NInf (lit_float (1 / 2))"
    by (simp_all add: float_consts)
  have n: "\<not> fge ?x (lit_float (3 / 4))" "\<not> fge ?x (lit_float (1 / 2))"
    "\<not> fge NInf (lit_float (3 / 4))" "\<not> fge NInf (lit_float (1 / 2))"
    using neg by (simp_all add: float_consts fge_def)
  have "fsub (Fin (1 / 2)) ?x = round_double (1 / 2 + pow2 1023)"
    using neg by (simp add: fsub_def fadd_def)
  moreover have "pow2 1023 \<le> 1 / 2 + pow2 1023" by simp
  ultimately have "fsub (Fin (1 / 2)) ?x = PInf \<or> (\<exists>v. fsub (Fin (1 / 2)) ?x = Fin v \<and> pow2 1023 \<le> v)"
    using round_double_lower[of 1023 "1 / 2 + pow2 1023"] by auto
  from fmul_overflow[OF this, of 100]
  have p: "fmul (fsub (lit_float (1 / 2)) ?x) (float_of_int 100) = PInf"
    by (simp add: float_consts)
  have q: "fmul (fsub (lit_float (1 / 2)) NInf) (float_of_int 100) = PInf"
    by (simp add: float_consts fsub_def fadd_def fmul_def is_zero_def signed_inf_def)
  have "r2_insight (Some ?x) = Inl OverflowError" "r2_insight (Some NInf) = Inl OverflowError"
    using n by (simp_all add: r2_insight_def p q)
  then show ?thesis using lt by (simp add: generate_Inl)
qed

end
